theory Spec2Isabelle
  imports Complex_Main "HOL-Library.Multiset" "HOL-Library.Sublist" "HOL-Library.AList"
begin

section \<open>Data model\<close>

text \<open>
  A point is the tuple \<open>(birthrate, life_expectancy)\<close> that \<open>read_csv\<close> stores for a
  country. The coordinates are Python floats. Two models of them are used.

  The statements about the partition, the tie-break, the order inside a cluster, a number of
  clusters outside the range, the empty cluster and the countries of a cluster are about the
  control flow and the lists, not about rounding: there a coordinate is a real number, and
  the one non-finite value they speak about, the \<open>nan\<close> that numpy returns for the mean
  of an empty list, is kept apart in the type \<open>npfloat\<close>.

  The statements that depend on rounding, on overflow, on underflow or on \<open>nan\<close> and the
  infinities (the singleton clusters, the range of the returned position, the reported means
  and the reading of the table) are about the type \<open>f64\<close> of double-precision numbers and
  the functions whose names end in \<open>_f64\<close>.
\<close>

type_synonym point = "real \<times> real"

text \<open>The dictionary of \<open>read_csv\<close>: keys in insertion order, one entry per key.\<close>

type_synonym data_dict = "(string \<times> point) list"

text \<open>The exceptions the functions can raise, each with the text of its message.\<close>

datatype error = ValueError string | IndexError string | StopIteration | OverflowError string


section \<open>Distances and the closest centroid\<close>

definition euclidean_distance :: "real \<Rightarrow> real \<Rightarrow> real \<Rightarrow> real \<Rightarrow> real" where
  "euclidean_distance x1 x2 y1 y2 =
     (let euclidean = (x2 - x1) ^ 2 + (y2 - y1) ^ 2;
          eu_sq = sqrt euclidean
      in eu_sq)"

text \<open>\<open>np.amin\<close> of a list: the least element; a \<open>ValueError\<close> on the empty list.\<close>

definition amin :: "real list \<Rightarrow> error + real" where
  "amin distances =
     (if distances = []
      then Inl (ValueError ''zero-size array to reduction operation minimum which has no identity'')
      else Inr (Min (set distances)))"

text \<open>\<open>np.where(distances == m)[0]\<close>: the positions holding \<open>m\<close>, in increasing order.\<close>

definition where_eq :: "real list \<Rightarrow> real \<Rightarrow> nat list" where
  "where_eq distances m = filter (\<lambda>i. distances ! i = m) [0..<length distances]"

definition centroid_distances :: "point list \<Rightarrow> point \<Rightarrow> real list" where
  "centroid_distances centroids datapoint =
     map (\<lambda>point. euclidean_distance (fst point) (fst datapoint) (snd point) (snd datapoint))
       centroids"

definition closest_centroid :: "point list \<Rightarrow> point \<Rightarrow> error + nat" where
  "closest_centroid centroids datapoint =
     (let distances = centroid_distances centroids datapoint
      in case amin distances of
           Inl e \<Rightarrow> Inl e
         | Inr min_distance \<Rightarrow>
             (case where_eq distances min_distance of
                [] \<Rightarrow> Inl (IndexError ''index 0 is out of bounds for axis 0 with size 0'')
              | min_index # _ \<Rightarrow> Inr min_index))"

section \<open>Seeding and assignment\<close>

text \<open>
  \<open>random.sample(population, k)\<close> raises a \<open>ValueError\<close> unless \<open>0 \<le> k \<le> n\<close> and
  otherwise returns the elements at \<open>k\<close> distinct positions chosen at random. The choice
  is the argument \<open>sel\<close>: the chosen positions, in the order they are returned.
\<close>

definition valid_selection :: "nat list \<Rightarrow> nat \<Rightarrow> int \<Rightarrow> bool" where
  "valid_selection sel n k \<longleftrightarrow>
     int (length sel) = k \<and> distinct sel \<and> list_all (\<lambda>i. i < n) sel"

definition sample :: "nat list \<Rightarrow> 'a list \<Rightarrow> int \<Rightarrow> error + 'a list" where
  "sample sel population k =
     (if \<not> (0 \<le> k \<and> k \<le> int (length population))
      then Inl (ValueError ''Sample larger than population or is negative'')
      else Inr (map (\<lambda>i. population ! i) sel))"

text \<open>
  The loop of \<open>init_centroids\<close>: each point is appended to the list at the position that
  \<open>closest_centroid\<close> returns. An exception of \<open>closest_centroid\<close> ends the loop; a
  position outside the list of lists is the \<open>IndexError\<close> of Python's indexing.
\<close>

fun assign_points :: "point list \<Rightarrow> point list \<Rightarrow> point list list \<Rightarrow> error + point list list"
  where
  "assign_points samples [] centroids = Inr centroids"
| "assign_points samples (point # rest) centroids =
     (case closest_centroid samples point of
        Inl e \<Rightarrow> Inl e
      | Inr i \<Rightarrow>
          (if i < length centroids
           then assign_points samples rest (centroids[i := centroids ! i @ [point]])
           else Inl (IndexError ''list index out of range'')))"

definition init_centroids :: "nat list \<Rightarrow> point list \<Rightarrow> int \<Rightarrow> error + point list list" where
  "init_centroids sel datapoints number_clusters =
     (case sample sel datapoints number_clusters of
        Inl e \<Rightarrow> Inl e
      | Inr samples \<Rightarrow> assign_points samples datapoints (map (\<lambda>cp. []) samples))"

section \<open>Reporting\<close>

text \<open>
  \<open>get_country\<close> prints the matching countries joined by commas and then their number;
  the model returns the list and the number.
\<close>

definition get_country :: "point list \<Rightarrow> data_dict \<Rightarrow> string list \<times> nat" where
  "get_country cluster data =
     (let country_list =
            fold (\<lambda>(country, point) acc. if point \<in> set cluster then acc @ [country] else acc)
              data []
      in (country_list, length country_list))"


text \<open>Rounding to the nearest integer, a tie to the even neighbour, as numpy rounds.\<close>

definition rint :: "real \<Rightarrow> int" where
  "rint v =
     (let f = \<lfloor>v\<rfloor>; d = v - of_int f
      in if d < 1 / 2 then f else if 1 / 2 < d then f + 1 else if even f then f else f + 1)"



section \<open>Double-precision numbers\<close>

text \<open>
  A Python float is an IEEE 754 binary64 number: a finite number, one of the two infinities or
  \<open>nan\<close>. A finite number is carried as the real number it denotes. The two zeros are one
  value here: they are equal for Python's \<open>==\<close>, and the only operation below that tells
  them apart, a division by zero, divides by the non-negative zero.
\<close>

datatype f64 = Fin real | PInf | NInf | QNaN

text \<open>
  Rounding a real number to binary64: the nearest multiple of the unit in the last place of
  its binade (53 significant bits, the least exponent \<open>-1022\<close>, so that the numbers below
  \<open>2 ^ -1022\<close> are spaced \<open>2 ^ -1074\<close> apart), a tie to the even multiple, and an
  infinity when the rounded magnitude reaches \<open>2 ^ 1024\<close>. Every operation on finite
  numbers is the exact operation followed by this rounding.
\<close>

definition f64_huge :: real where
  "f64_huge = 2 ^ 1024"

definition round_f64 :: "real \<Rightarrow> f64" where
  "round_f64 x =
     (if x = 0 then Fin 0
      else
        let e = max \<lfloor>log 2 \<bar>x\<bar>\<rfloor> (- 1022);
            ulp = 2 powr of_int (e - 52);
            m = of_int (rint (x / ulp)) * ulp
        in if f64_huge \<le> \<bar>m\<bar> then (if 0 < x then PInf else NInf) else Fin m)"

text \<open>\<open>+\<close>, \<open>-\<close> and \<open>*\<close> on floats: they raise nothing, \<open>nan\<close> propagates.\<close>

fun f64_add :: "f64 \<Rightarrow> f64 \<Rightarrow> f64" where
  "f64_add QNaN b = QNaN"
| "f64_add a QNaN = QNaN"
| "f64_add PInf NInf = QNaN"
| "f64_add NInf PInf = QNaN"
| "f64_add PInf b = PInf"
| "f64_add a PInf = PInf"
| "f64_add NInf b = NInf"
| "f64_add a NInf = NInf"
| "f64_add (Fin a) (Fin b) = round_f64 (a + b)"

fun f64_sub :: "f64 \<Rightarrow> f64 \<Rightarrow> f64" where
  "f64_sub QNaN b = QNaN"
| "f64_sub a QNaN = QNaN"
| "f64_sub PInf PInf = QNaN"
| "f64_sub NInf NInf = QNaN"
| "f64_sub PInf b = PInf"
| "f64_sub a PInf = NInf"
| "f64_sub NInf b = NInf"
| "f64_sub a NInf = PInf"
| "f64_sub (Fin a) (Fin b) = round_f64 (a - b)"



text \<open>
  \<open>x ** 2\<close> on a Python float. Python raises an \<open>OverflowError\<close> when the square of a
  finite number is out of range; the square of an infinity is the infinity. The message of
  the exception is kept without the error number in front of it.
\<close>

fun py_pow2 :: "f64 \<Rightarrow> error + f64" where
  "py_pow2 QNaN = Inr QNaN"
| "py_pow2 PInf = Inr PInf"
| "py_pow2 NInf = Inr PInf"
| "py_pow2 (Fin a) =
     (case round_f64 (a * a) of
        Fin r \<Rightarrow> Inr (Fin r)
      | _ \<Rightarrow> Inl (OverflowError ''Numerical result out of range''))"

text \<open>\<open>np.sqrt\<close>: \<open>nan\<close> (with a warning, no exception) for a negative number.\<close>

fun np_sqrt :: "f64 \<Rightarrow> f64" where
  "np_sqrt QNaN = QNaN"
| "np_sqrt PInf = PInf"
| "np_sqrt NInf = QNaN"
| "np_sqrt (Fin a) = (if a < 0 then QNaN else round_f64 (sqrt a))"

text \<open>Order and equality of floats: \<open>nan\<close> is neither below nor equal to anything.\<close>

fun f64_le :: "f64 \<Rightarrow> f64 \<Rightarrow> bool" where
  "f64_le QNaN b = False"
| "f64_le a QNaN = False"
| "f64_le NInf b = True"
| "f64_le a PInf = True"
| "f64_le PInf b = False"
| "f64_le a NInf = False"
| "f64_le (Fin a) (Fin b) = (a \<le> b)"

definition f64_eq :: "f64 \<Rightarrow> f64 \<Rightarrow> bool" where
  "f64_eq a b \<longleftrightarrow> a \<noteq> QNaN \<and> b \<noteq> QNaN \<and> a = b"

text \<open>
  \<open>euclidean_distance\<close> and the list of distances that \<open>closest_centroid\<close> builds, in
  double precision. An \<open>OverflowError\<close> of a square leaves both functions.
\<close>

type_synonym f64_point = "f64 \<times> f64"

definition euclidean_distance_f64 :: "f64 \<Rightarrow> f64 \<Rightarrow> f64 \<Rightarrow> f64 \<Rightarrow> error + f64" where
  "euclidean_distance_f64 x1 x2 y1 y2 =
     (case py_pow2 (f64_sub x2 x1) of
        Inl e \<Rightarrow> Inl e
      | Inr dx \<Rightarrow>
          (case py_pow2 (f64_sub y2 y1) of
             Inl e \<Rightarrow> Inl e
           | Inr dy \<Rightarrow>
               (let euclidean = f64_add dx dy;
                    eu_sq = np_sqrt euclidean
                in Inr eu_sq)))"

fun centroid_distances_f64 :: "f64_point list \<Rightarrow> f64_point \<Rightarrow> error + f64 list" where
  "centroid_distances_f64 [] datapoint = Inr []"
| "centroid_distances_f64 (point # rest) datapoint =
     (case euclidean_distance_f64 (fst point) (fst datapoint) (snd point) (snd datapoint) of
        Inl e \<Rightarrow> Inl e
      | Inr distance \<Rightarrow>
          (case centroid_distances_f64 rest datapoint of
             Inl e \<Rightarrow> Inl e
           | Inr distances \<Rightarrow> Inr (distance # distances)))"

text \<open>
  \<open>np.amin\<close> returns \<open>nan\<close> when some element is \<open>nan\<close> and the least element
  otherwise. \<open>np.where(distances == min_distance)\<close> then holds no position at all, since
  \<open>nan\<close> equals nothing, and \<open>min_index[0][0]\<close> raises numpy's \<open>IndexError\<close>.
\<close>

definition f64_min :: "f64 \<Rightarrow> f64 \<Rightarrow> f64" where
  "f64_min a b = (if f64_le a b then a else b)"

definition amin_f64 :: "f64 list \<Rightarrow> error + f64" where
  "amin_f64 distances =
     (case distances of
        [] \<Rightarrow> Inl (ValueError ''zero-size array to reduction operation minimum which has no identity'')
      | d # ds \<Rightarrow> if QNaN \<in> set distances then Inr QNaN else Inr (foldl f64_min d ds))"

definition where_eq_f64 :: "f64 list \<Rightarrow> f64 \<Rightarrow> nat list" where
  "where_eq_f64 distances m = filter (\<lambda>i. f64_eq (distances ! i) m) [0..<length distances]"

definition closest_centroid_f64 :: "f64_point list \<Rightarrow> f64_point \<Rightarrow> error + nat" where
  "closest_centroid_f64 centroids datapoint =
     (case centroid_distances_f64 centroids datapoint of
        Inl e \<Rightarrow> Inl e
      | Inr distances \<Rightarrow>
          (case amin_f64 distances of
             Inl e \<Rightarrow> Inl e
           | Inr min_distance \<Rightarrow>
               (case where_eq_f64 distances min_distance of
                  [] \<Rightarrow> Inl (IndexError ''index 0 is out of bounds for axis 0 with size 0'')
                | min_index # _ \<Rightarrow> Inr min_index)))"

text \<open>The loop of \<open>init_centroids\<close> on double-precision points.\<close>

fun assign_points_f64 ::
  "f64_point list \<Rightarrow> f64_point list \<Rightarrow> f64_point list list \<Rightarrow> error + f64_point list list"
  where
  "assign_points_f64 samples [] centroids = Inr centroids"
| "assign_points_f64 samples (point # rest) centroids =
     (case closest_centroid_f64 samples point of
        Inl e \<Rightarrow> Inl e
      | Inr i \<Rightarrow>
          (if i < length centroids
           then assign_points_f64 samples rest (centroids[i := centroids ! i @ [point]])
           else Inl (IndexError ''list index out of range'')))"

definition init_centroids_f64 ::
  "nat list \<Rightarrow> f64_point list \<Rightarrow> int \<Rightarrow> error + f64_point list list" where
  "init_centroids_f64 sel datapoints number_clusters =
     (case sample sel datapoints number_clusters of
        Inl e \<Rightarrow> Inl e
      | Inr samples \<Rightarrow> assign_points_f64 samples datapoints (map (\<lambda>cp. []) samples))"

text \<open>
  Predicates for the statements: a finite number, a point of finite coordinates, a number that
  is not negative, a distance that was computed and is positive, and a dataset in which the
  computed distance between any two different points is positive.
\<close>

fun is_fin :: "f64 \<Rightarrow> bool" where
  "is_fin (Fin a) = True"
| "is_fin a = False"

definition finite_point :: "f64_point \<Rightarrow> bool" where
  "finite_point p \<longleftrightarrow> is_fin (fst p) \<and> is_fin (snd p)"


fun positive :: "error + f64 \<Rightarrow> bool" where
  "positive (Inr (Fin d)) = (0 < d)"
| "positive (Inr PInf) = True"
| "positive r = False"

definition positive_distances :: "f64_point list \<Rightarrow> bool" where
  "positive_distances datapoints \<longleftrightarrow>
     (\<forall>p\<in>set datapoints. \<forall>q\<in>set datapoints.
        p \<noteq> q \<longrightarrow> positive (euclidean_distance_f64 (fst q) (fst p) (snd q) (snd p)))"






section \<open>Reading the table\<close>

text \<open>
  Python's \<open>float\<close> on a field of the table. A string is a list of code points below 256.
  \<open>float\<close> strips the white space around the field: the characters 9 to 13 and 32 and,
  of the code points from 128 on, 133 and 160. The characters 28 to 31 are white space for
  \<open>str.isspace\<close> but not for \<open>float\<close>, which rejects a field that holds one.
\<close>

definition is_space :: "char \<Rightarrow> bool" where
  "is_space c \<longleftrightarrow>
     (of_char c :: nat) = 32 \<or> (9 \<le> (of_char c :: nat) \<and> (of_char c :: nat) \<le> 13) \<or>
     (of_char c :: nat) = 133 \<or> (of_char c :: nat) = 160"

definition is_digit :: "char \<Rightarrow> bool" where
  "is_digit c \<longleftrightarrow> 48 \<le> (of_char c :: nat) \<and> (of_char c :: nat) \<le> 57"

definition strip :: "string \<Rightarrow> string" where
  "strip s = rev (dropWhile is_space (rev (dropWhile is_space s)))"

text \<open>
  An underscore is accepted between two digits only: the check of \<open>float\<close> runs over the
  field with the previous character at hand, which is the character 0 at the start.
\<close>

fun underscores_ok :: "char \<Rightarrow> string \<Rightarrow> bool" where
  "underscores_ok prev [] = (prev \<noteq> CHR ''_'')"
| "underscores_ok prev (c # cs) =
     (if c = CHR ''_'' then is_digit prev \<and> underscores_ok c cs
      else if prev = CHR ''_'' \<and> \<not> is_digit c then False
      else underscores_ok c cs)"

text \<open>The words \<open>inf\<close>, \<open>infinity\<close> and \<open>nan\<close> are matched without regard to case.\<close>

definition to_lower :: "char \<Rightarrow> char" where
  "to_lower c =
     (case map_of (zip ''ABCDEFGHIJKLMNOPQRSTUVWXYZ'' ''abcdefghijklmnopqrstuvwxyz'') c of
        Some l \<Rightarrow> l
      | None \<Rightarrow> c)"

text \<open>
  A number is digits with an optional point, or a point followed by digits, and then an
  optional exponent: \<open>e\<close> or \<open>E\<close>, an optional sign and at least one digit. Its value is
  the exact decimal value.
\<close>

definition digits_val :: "string \<Rightarrow> nat" where
  "digits_val ds = foldl (\<lambda>a c. 10 * a + (of_char c - 48)) 0 ds"

definition pow10 :: "int \<Rightarrow> real" where
  "pow10 n = (if 0 \<le> n then 10 ^ nat n else 1 / 10 ^ nat (- n))"

definition split_sign :: "string \<Rightarrow> bool \<times> string" where
  "split_sign t =
     (case t of
        [] \<Rightarrow> (False, [])
      | c # cs \<Rightarrow>
          if c = CHR ''-'' then (True, cs) else if c = CHR ''+'' then (False, cs) else (False, t))"

definition parse_exponent :: "string \<Rightarrow> int option" where
  "parse_exponent r =
     (case r of
        [] \<Rightarrow> Some 0
      | c # cs \<Rightarrow>
          if c = CHR ''e'' \<or> c = CHR ''E''
          then (let (neg, ds) = split_sign cs
                in if ds \<noteq> [] \<and> list_all is_digit ds
                   then Some ((if neg then - 1 else 1) * int (digits_val ds))
                   else None)
          else None)"

definition parse_number :: "string \<Rightarrow> real option" where
  "parse_number u =
     (let ip = takeWhile is_digit u;
          r = dropWhile is_digit u;
          (fp, r') = (case r of
                        [] \<Rightarrow> ([], [])
                      | c # cs \<Rightarrow>
                          if c = CHR ''.'' then (takeWhile is_digit cs, dropWhile is_digit cs)
                          else ([], r))
      in if ip = [] \<and> fp = [] then None
         else (case parse_exponent r' of
                 None \<Rightarrow> None
               | Some ex \<Rightarrow> Some (real (digits_val (ip @ fp)) * pow10 (ex - int (length fp)))))"

text \<open>
  \<open>float\<close>: the stripped field, without its underscores, is an optional sign followed by
  a number or by one of the three words; the result is the number rounded to double
  precision, which is an infinity for a number as large as \<open>1e400\<close>. Anything else is a
  \<open>ValueError\<close>; its message is kept up to the colon, without the field that Python
  quotes after it.
\<close>

definition float_error :: "error + f64" where
  "float_error = Inl (ValueError ''could not convert string to float'')"

definition py_float :: "string \<Rightarrow> error + f64" where
  "py_float s =
     (let t = strip s
      in if t = [] \<or> \<not> underscores_ok (CHR 0x00) t then float_error
         else (let (neg, u) = split_sign (filter (\<lambda>c. c \<noteq> CHR ''_'') t)
               in case parse_number u of
                    Some v \<Rightarrow> Inr (round_f64 (if neg then - v else v))
                  | None \<Rightarrow>
                      (let l = map to_lower u
                       in if l = ''inf'' \<or> l = ''infinity'' then Inr (if neg then NInf else PInf)
                          else if l = ''nan'' then Inr QNaN
                          else float_error)))"

text \<open>\<open>row[i]\<close> on a row of the table.\<close>

definition get_field :: "string list \<Rightarrow> nat \<Rightarrow> error + string" where
  "get_field row i = (if i < length row then Inr (row ! i) else Inl (IndexError ''list index out of range''))"

text \<open>
  The loop over the rows after the header. An exception leaves the loop and the function:
  the \<open>except\<close> clause of \<open>read_csv\<close> names \<open>FileNotFoundError\<close> only. The
  assignment \<open>data_dict[country] = ...\<close> replaces the value of a key that is there and
  appends a key that is new.
\<close>

type_synonym f64_dict = "(string \<times> f64_point) list"

fun read_rows :: "string list list \<Rightarrow> f64_dict \<Rightarrow> error + f64_dict" where
  "read_rows [] data_dict = Inr data_dict"
| "read_rows (row # rest) data_dict =
     (case get_field row 0 of
        Inl e \<Rightarrow> Inl e
      | Inr country \<Rightarrow>
          (case get_field row 1 of
             Inl e \<Rightarrow> Inl e
           | Inr f1 \<Rightarrow>
               (case py_float f1 of
                  Inl e \<Rightarrow> Inl e
                | Inr birthrate \<Rightarrow>
                    (case get_field row 2 of
                       Inl e \<Rightarrow> Inl e
                     | Inr f2 \<Rightarrow>
                         (case py_float f2 of
                            Inl e \<Rightarrow> Inl e
                          | Inr life_expectancy \<Rightarrow>
                              read_rows rest
                                (AList.update country (birthrate, life_expectancy) data_dict))))))"

text \<open>
  The file system is a map from file names to tables, a table being the rows that
  \<open>csv.reader\<close> yields. The result is the printed lines and the returned dictionary.
\<close>

definition read_csv ::
  "(string \<rightharpoonup> string list list) \<Rightarrow> string \<Rightarrow> error + (string list \<times> f64_dict)" where
  "read_csv fs file =
     (case fs file of
        None \<Rightarrow> Inr ([''Please enter the correct file name!''], [])
      | Some rows \<Rightarrow>
          (case rows of
             [] \<Rightarrow> Inl StopIteration
           | header # body \<Rightarrow>
               (case read_rows body [] of
                  Inl e \<Rightarrow> Inl e
                | Inr data_dict \<Rightarrow> Inr ([], data_dict))))"

text \<open>
  A row that the loop of \<open>read_csv\<close> gets through: it has the three fields that the loop
  reads, and \<open>float\<close> accepts the second and the third. The entry that such a row
  assigns to the dictionary.
\<close>

definition row_ok :: "string list \<Rightarrow> bool" where
  "row_ok row \<longleftrightarrow> 3 \<le> length row \<and> \<not> isl (py_float (row ! 1)) \<and> \<not> isl (py_float (row ! 2))"

definition row_entry :: "string list \<Rightarrow> string \<times> f64_point" where
  "row_entry row = (row ! 0, (projr (py_float (row ! 1)), projr (py_float (row ! 2))))"

section \<open>Auxiliary facts\<close>



lemma length_centroid_distances [simp]:
  "length (centroid_distances centroids p) = length centroids"
  by (simp add: centroid_distances_def)


lemma closest_centroid_empty:
  "closest_centroid [] p = Inl (ValueError ''zero-size array to reduction operation minimum which has no identity'')"
  by (simp add: closest_centroid_def amin_def centroid_distances_def)


lemma assign_points_no_samples:
  "assign_points [] ps centroids =
     (if ps = [] then Inr centroids
      else Inl (ValueError ''zero-size array to reduction operation minimum which has no identity''))"
  by (cases ps) (simp_all add: closest_centroid_empty)






section \<open>Claims about the partition\<close>



section \<open>Claims about the closest centroid\<close>




section \<open>Claims about the order inside a cluster\<close>



section \<open>Facts about double precision\<close>

lemma f64_huge_powr: "f64_huge = 2 powr 1024"
  unfolding f64_huge_def by (rule powr_numeral[symmetric]) simp

lemma f64_huge_pos: "0 < f64_huge"
  by (simp add: f64_huge_powr)

lemma rint_of_int [simp]: "rint (of_int k) = k"
  by (simp add: rint_def)


lemma rint_small: "0 \<le> v \<Longrightarrow> v < 1 / 2 \<Longrightarrow> rint v = 0"
proof -
  assume a: "0 \<le> v" "v < 1 / 2"
  then have "\<lfloor>v\<rfloor> = 0" by (simp add: floor_eq_iff)
  then show ?thesis using a by (simp add: rint_def)
qed

lemma round_f64_zero [simp]: "round_f64 0 = Fin 0"
  by (simp add: round_f64_def)

lemma round_f64_exact:
  assumes x: "x = of_int k * 2 powr of_int j"
    and k: "\<bar>k\<bar> < 2 ^ 53" and j: "- 1074 \<le> j" "j \<le> 971"
  shows "round_f64 x = Fin x"
proof (cases "k = 0")
  case True
  then show ?thesis using x by simp
next
  case False
  then have x0: "x \<noteq> 0" using x by simp
  have ak: "0 < (of_int \<bar>k\<bar> :: real)" using False by simp
  have ax: "\<bar>x\<bar> = of_int \<bar>k\<bar> * 2 powr of_int j" using x by (simp add: abs_mult)
  have "log 2 \<bar>x\<bar> = log 2 (of_int \<bar>k\<bar>) + of_int j"
    unfolding ax using ak by (simp add: log_mult)
  then have fl: "\<lfloor>log 2 \<bar>x\<bar>\<rfloor> = \<lfloor>log 2 (of_int \<bar>k\<bar>)\<rfloor> + j" by simp
  have "(of_int \<bar>k\<bar> :: real) < 2 ^ 53" using k by (metis of_int_less_numeral_power_cancel_iff)
  then have "(of_int \<bar>k\<bar> :: real) < 2 powr 53" by (simp add: powr_realpow[symmetric])
  then have "log 2 (of_int \<bar>k\<bar>) < 53" using ak by (simp add: log_less_iff)
  then have b: "\<lfloor>log 2 (of_int \<bar>k\<bar>)\<rfloor> \<le> 52" by (simp add: floor_le_iff)
  define e where "e = max \<lfloor>log 2 \<bar>x\<bar>\<rfloor> (- 1022)"
  define t where "t = e - 52"
  have tj: "t \<le> j" unfolding t_def e_def fl using b j by arith
  have "2 powr of_int j / 2 powr of_int t = (2::real) powr of_int (j - t)"
    by (simp add: powr_diff)
  also have "\<dots> = 2 ^ nat (j - t)" using tj by (simp add: powr_realpow[symmetric])
  finally have q: "2 powr of_int j / 2 powr of_int t = (2::real) ^ nat (j - t)" .
  have "x / 2 powr of_int t = of_int k * (2 powr of_int j / 2 powr of_int t)"
    using x by simp
  also have "\<dots> = of_int (k * 2 ^ nat (j - t))" unfolding q by simp
  finally have d: "x / 2 powr of_int t = of_int (k * 2 ^ nat (j - t))" .
  have m: "of_int (rint (x / 2 powr of_int t)) * 2 powr of_int t = x"
  proof -
    have "of_int (rint (x / 2 powr of_int t)) * 2 powr of_int t = (x / 2 powr of_int t) * 2 powr of_int t"
      unfolding d rint_of_int ..
    then show ?thesis by simp
  qed
  have jb: "2 powr of_int j \<le> (2::real) powr 971"
    by (rule powr_mono) (use j in simp_all)
  have "\<bar>x\<bar> < 2 powr 53 * 2 powr 971"
    unfolding ax
    by (rule mult_less_le_imp_less[OF \<open>(of_int \<bar>k\<bar> :: real) < 2 powr 53\<close> jb]) simp_all
  also have "(2::real) powr 53 * 2 powr 971 = 2 powr 1024"
    unfolding powr_add[symmetric] by simp
  finally have small: "\<not> f64_huge \<le> \<bar>x\<bar>" by (simp add: f64_huge_powr del: powr_numeral)
  show ?thesis
    using x0 m small unfolding round_f64_def Let_def e_def[symmetric] t_def[symmetric] by simp
qed

lemma round_f64_of_int:
  assumes "\<bar>k\<bar> < 2 ^ 53"
  shows "round_f64 (of_int k) = Fin (of_int k)"
  using round_f64_exact[of "of_int k" k 0] assms by simp

lemma round_f64_underflow:
  assumes "0 < x" "x < 2 powr (- 1075)"
  shows "round_f64 x = Fin 0"
proof -
  have "log 2 x < - 1075" using assms by (simp add: log_less_iff)
  then have "\<lfloor>log 2 \<bar>x\<bar>\<rfloor> < - 1022" using assms(1) by (simp add: floor_less_iff)
  then have e: "max \<lfloor>log 2 \<bar>x\<bar>\<rfloor> (- 1022) = - 1022" by simp
  have "x / 2 powr (- 1074) < 2 powr (- 1075) / 2 powr (- 1074)"
    using assms(2) by (simp add: divide_strict_right_mono)
  also have "\<dots> = 2 powr (- 1)" by (simp add: powr_diff[symmetric])
  also have "\<dots> = 1 / 2" by (simp add: powr_minus_divide)
  finally have lt: "x / 2 powr (- 1074) < 1 / 2" .
  have "rint (x / 2 powr (- 1074)) = 0"
    using assms(1) lt by (intro rint_small) simp_all
  then have "of_int (rint (x / 2 powr of_int (- 1022 - 52))) * 2 powr of_int (- 1022 - 52) = (0::real)"
    by simp
  then show ?thesis using assms(1) f64_huge_pos unfolding round_f64_def Let_def e by simp
qed





lemma round_f64_small:
  "round_f64 1 = Fin 1" "round_f64 (- 1) = Fin (- 1)"
  "round_f64 2 = Fin 2" "round_f64 (- 2) = Fin (- 2)"
  "round_f64 4 = Fin 4"
  using round_f64_of_int[of 1] round_f64_of_int[of "- 1"] round_f64_of_int[of 2]
    round_f64_of_int[of "- 2"] round_f64_of_int[of 4]
  by simp_all


lemma round_f64_not_nan [simp]: "round_f64 x \<noteq> QNaN"
  by (simp add: round_f64_def Let_def)








lemma centroid_distances_f64_length:
  "centroid_distances_f64 centroids p = Inr ds \<Longrightarrow> length ds = length centroids"
  by (induction centroids arbitrary: ds) (auto split: sum.splits)



lemma centroid_distances_f64_nth:
  assumes "centroid_distances_f64 centroids p = Inr ds" "j < length centroids"
  shows "euclidean_distance_f64 (fst (centroids ! j)) (fst p) (snd (centroids ! j)) (snd p) = Inr (ds ! j)"
  using assms
proof (induction centroids arbitrary: ds j)
  case Nil
  then show ?case by simp
next
  case (Cons c cs)
  then show ?case by (cases j) (auto split: sum.splits)
qed

lemma f64_le_refl: "a \<noteq> QNaN \<Longrightarrow> f64_le a a"
  by (cases a) simp_all

lemma f64_le_total: "a \<noteq> QNaN \<Longrightarrow> b \<noteq> QNaN \<Longrightarrow> f64_le a b \<or> f64_le b a"
  by (cases a; cases b) auto

lemma f64_le_trans: "f64_le a b \<Longrightarrow> f64_le b c \<Longrightarrow> f64_le a c"
  by (cases a; cases b; cases c) auto

lemma f64_le_not_nan: "f64_le a b \<Longrightarrow> a \<noteq> QNaN \<and> b \<noteq> QNaN"
  by (cases a; cases b) auto

lemma foldl_f64_min_in: "foldl f64_min d ds \<in> set (d # ds)"
  by (induction ds arbitrary: d) (auto simp: f64_min_def)

lemma foldl_f64_min_le:
  "QNaN \<notin> set (d # ds) \<Longrightarrow> x \<in> set (d # ds) \<Longrightarrow> f64_le (foldl f64_min d ds) x"
proof (induction ds arbitrary: d x)
  case Nil
  then show ?case by (simp add: f64_le_refl)
next
  case (Cons a ds)
  have nn: "QNaN \<notin> set (f64_min d a # ds)" using Cons.prems(1) by (auto simp: f64_min_def)
  have le_d: "f64_le (f64_min d a) d" and le_a: "f64_le (f64_min d a) a"
    using Cons.prems(1) f64_le_total[of d a] by (auto simp: f64_min_def f64_le_refl)
  have base: "f64_le (foldl f64_min (f64_min d a) ds) (f64_min d a)"
    by (rule Cons.IH[OF nn]) simp
  show ?case
  proof (cases "x \<in> set ds")
    case True
    then show ?thesis using Cons.IH[OF nn, of x] by simp
  next
    case False
    then have "x = d \<or> x = a" using Cons.prems(2) by auto
    then show ?thesis using base le_d le_a by (auto intro: f64_le_trans)
  qed
qed

lemma amin_f64_min:
  assumes "ds \<noteq> []" "QNaN \<notin> set ds"
  shows "\<exists>m. amin_f64 ds = Inr m \<and> m \<in> set ds \<and> (\<forall>x\<in>set ds. f64_le m x)"
proof -
  from assms(1) obtain d ds' where ds: "ds = d # ds'" by (cases ds) auto
  have "amin_f64 ds = Inr (foldl f64_min d ds')" using assms(2) by (simp add: amin_f64_def ds)
  moreover have "foldl f64_min d ds' \<in> set ds" unfolding ds by (rule foldl_f64_min_in)
  moreover have "\<forall>x\<in>set ds. f64_le (foldl f64_min d ds') x"
    using assms(2) foldl_f64_min_le[of d ds'] unfolding ds by blast
  ultimately show ?thesis by blast
qed


lemma filter_upt_Cons:
  assumes "filter P [0..<n] = i # r"
  shows "i < n \<and> P i \<and> (\<forall>j<i. \<not> P j)"
proof -
  from assms obtain us vs where
    split: "[0..<n] = us @ i # vs" and no: "\<forall>u\<in>set us. \<not> P u" and yes: "P i"
    unfolding filter_eq_Cons_iff by blast
  have "i \<in> set [0..<n]" by (simp add: split)
  then have lt: "i < n" by simp
  have srt: "sorted (us @ i # vs)" using sorted_upt[of 0 n] by (simp add: split)
  have "\<not> P j" if "j < i" for j
  proof -
    have "j \<in> set (us @ i # vs)" using that lt by (simp flip: split)
    moreover have "j \<notin> set vs" using srt that by (auto simp: sorted_append)
    ultimately have "j \<in> set us" using that by auto
    then show ?thesis using no by blast
  qed
  then show ?thesis using lt yes by blast
qed




lemma closest_centroid_f64_least:
  assumes "centroid_distances_f64 centroids p = Inr ds" "centroids \<noteq> []" "QNaN \<notin> set ds"
  shows "\<exists>i. closest_centroid_f64 centroids p = Inr i \<and> i < length centroids \<and>
           (\<forall>x\<in>set ds. f64_le (ds ! i) x) \<and> (\<forall>j<i. ds ! j \<noteq> ds ! i)"
proof -
  have len: "length ds = length centroids" by (rule centroid_distances_f64_length[OF assms(1)])
  then have ne: "ds \<noteq> []" using assms(2) by auto
  from amin_f64_min[OF ne assms(3)] obtain m where
    m: "amin_f64 ds = Inr m" "m \<in> set ds" "\<forall>x\<in>set ds. f64_le m x" by blast
  have mn: "m \<noteq> QNaN" using m(2) assms(3) by auto
  from m(2) obtain i0 where "i0 < length ds" "ds ! i0 = m" by (auto simp: in_set_conv_nth)
  then have "i0 \<in> set (where_eq_f64 ds m)" using mn by (simp add: where_eq_f64_def f64_eq_def)
  then obtain i r where w: "where_eq_f64 ds m = i # r" by (cases "where_eq_f64 ds m") auto
  from filter_upt_Cons[OF w[unfolded where_eq_f64_def]]
  have i: "i < length ds" "f64_eq (ds ! i) m" "\<forall>j<i. \<not> f64_eq (ds ! j) m" by auto
  have eq: "ds ! i = m" using i(2) by (simp add: f64_eq_def)
  have "\<forall>j<i. ds ! j \<noteq> ds ! i" using i(3) mn eq by (auto simp: f64_eq_def)
  moreover have "closest_centroid_f64 centroids p = Inr i"
    using assms(1) m(1) w by (simp add: closest_centroid_f64_def)
  ultimately show ?thesis using i(1) len m(3) eq by auto
qed




section \<open>Claims about the range of the returned position\<close>




lemma filter_eq_singleton:
  assumes "distinct xs" "a \<in> set xs"
  shows "filter (\<lambda>p. p = a) xs = [a]"
  using assms by (induction xs) (auto simp: filter_empty_conv)

lemma selection_all:
  assumes "valid_selection sel n (int n)"
  shows "length sel = n" "distinct sel" "set sel = {0..<n}"
proof -
  show l: "length sel = n" and d: "distinct sel" using assms by (auto simp: valid_selection_def)
  have sub: "set sel \<subseteq> {0..<n}" using assms by (auto simp: valid_selection_def list_all_iff)
  have "card (set sel) = n" using l d by (simp add: distinct_card)
  then show "set sel = {0..<n}" using sub by (simp add: card_subset_eq)
qed

lemma euclidean_distance_f64_self:
  assumes "finite_point p"
  shows "euclidean_distance_f64 (fst p) (fst p) (snd p) (snd p) = Inr (Fin 0)"
proof -
  obtain a b where "fst p = Fin a" "snd p = Fin b"
    using assms by (cases "fst p"; cases "snd p") (auto simp: finite_point_def)
  then show ?thesis by (simp add: euclidean_distance_f64_def)
qed

lemma centroid_distances_f64_total:
  assumes "\<forall>c\<in>set centroids. \<exists>d. euclidean_distance_f64 (fst c) (fst p) (snd c) (snd p) = Inr d"
  shows "\<exists>ds. centroid_distances_f64 centroids p = Inr ds"
  using assms by (induction centroids) auto

lemma assign_points_f64_filter:
  assumes "length centroids = length samples"
    and "\<forall>p\<in>set ps. \<exists>i<length samples. closest_centroid_f64 samples p = Inr i"
  shows "assign_points_f64 samples ps centroids =
           Inr (map (\<lambda>i. centroids ! i @ filter (\<lambda>p. closest_centroid_f64 samples p = Inr i) ps)
                  [0..<length centroids])"
  using assms
proof (induction ps arbitrary: centroids)
  case Nil
  then show ?case using map_nth[of centroids] by simp
next
  case (Cons p ps)
  from Cons.prems(2) obtain i0 where
    c: "closest_centroid_f64 samples p = Inr i0" and lt: "i0 < length samples" by auto
  let ?cs = "centroids[i0 := centroids ! i0 @ [p]]"
  have len: "length ?cs = length samples" using Cons.prems by simp
  have rest: "\<forall>p\<in>set ps. \<exists>i<length samples. closest_centroid_f64 samples p = Inr i"
    using Cons.prems(2) by simp
  have "assign_points_f64 samples (p # ps) centroids = assign_points_f64 samples ps ?cs"
    using c lt Cons.prems by simp
  also have "\<dots> = Inr (map (\<lambda>i. ?cs ! i @ filter (\<lambda>q. closest_centroid_f64 samples q = Inr i) ps)
                          [0..<length ?cs])"
    by (rule Cons.IH[OF len rest])
  also have "map (\<lambda>i. ?cs ! i @ filter (\<lambda>q. closest_centroid_f64 samples q = Inr i) ps) [0..<length ?cs]
           = map (\<lambda>i. centroids ! i @ filter (\<lambda>q. closest_centroid_f64 samples q = Inr i) (p # ps))
               [0..<length centroids]"
    using c lt Cons.prems by (auto simp: nth_list_update)
  finally show ?case .
qed

lemma init_centroids_f64_filter:
  assumes "0 \<le> k" "k \<le> int (length datapoints)"
    and "\<forall>p\<in>set datapoints. \<exists>i<length sel.
           closest_centroid_f64 (map (\<lambda>i. datapoints ! i) sel) p = Inr i"
  shows "init_centroids_f64 sel datapoints k =
           Inr (map (\<lambda>i. filter (\<lambda>p. closest_centroid_f64 (map (\<lambda>i. datapoints ! i) sel) p = Inr i)
                          datapoints)
                  [0..<length sel])"
  using assms assign_points_f64_filter[of "map (\<lambda>cp. []) (map (\<lambda>i. datapoints ! i) sel)"
      "map (\<lambda>i. datapoints ! i) sel" datapoints]
  by (simp add: init_centroids_f64_def sample_def)

lemma positive_not_le_zero:
  assumes "positive (Inr d)"
  shows "\<not> f64_le d (Fin 0)"
  using assms by (cases d) auto

lemma closest_centroid_f64_of_seed:
  assumes dS: "distinct S" and j: "j < length S"
    and fin: "finite_point (S ! j)"
    and pos: "\<forall>c\<in>set S. c \<noteq> S ! j \<longrightarrow>
                positive (euclidean_distance_f64 (fst c) (fst (S ! j)) (snd c) (snd (S ! j)))"
  shows "closest_centroid_f64 S (S ! j) = Inr j"
proof -
  let ?p = "S ! j"
  have ne: "S \<noteq> []" using j by auto
  have ex: "\<exists>d. euclidean_distance_f64 (fst c) (fst ?p) (snd c) (snd ?p) = Inr d"
    if "c \<in> set S" for c
  proof (cases "c = ?p")
    case True
    then show ?thesis using euclidean_distance_f64_self[OF fin] by simp
  next
    case False
    then have "positive (euclidean_distance_f64 (fst c) (fst ?p) (snd c) (snd ?p))"
      using pos that by blast
    then show ?thesis by (cases "euclidean_distance_f64 (fst c) (fst ?p) (snd c) (snd ?p)") auto
  qed
  then obtain ds where ds: "centroid_distances_f64 S ?p = Inr ds"
    using centroid_distances_f64_total[of S ?p] by blast
  have len: "length ds = length S" by (rule centroid_distances_f64_length[OF ds])
  have nth: "euclidean_distance_f64 (fst (S ! i)) (fst ?p) (snd (S ! i)) (snd ?p) = Inr (ds ! i)"
    if "i < length S" for i
    by (rule centroid_distances_f64_nth[OF ds that])
  have zero: "ds ! j = Fin 0"
    using nth[OF j] euclidean_distance_f64_self[OF fin] by simp
  have others: "positive (Inr (ds ! i))" if "i < length S" "i \<noteq> j" for i
  proof -
    have "S ! i \<noteq> S ! j" using nth_eq_iff_index_eq[OF dS that(1) j] that(2) by simp
    then have "positive (euclidean_distance_f64 (fst (S ! i)) (fst ?p) (snd (S ! i)) (snd ?p))"
      using pos that(1) by simp
    then show ?thesis using nth[OF that(1)] by simp
  qed
  have nn: "QNaN \<notin> set ds"
  proof
    assume "QNaN \<in> set ds"
    then obtain i where i: "i < length ds" "ds ! i = QNaN" by (auto simp: in_set_conv_nth)
    show False
    proof (cases "i = j")
      case True
      then show ?thesis using zero i(2) by simp
    next
      case False
      then show ?thesis using others[of i] i len by simp
    qed
  qed
  from closest_centroid_f64_least[OF ds ne nn] obtain i where
    i: "closest_centroid_f64 S ?p = Inr i" "i < length S" "\<forall>x\<in>set ds. f64_le (ds ! i) x"
    by blast
  have "ds ! j \<in> set ds" using j len by simp
  then have "f64_le (ds ! i) (Fin 0)" using i(3) zero by metis
  then have "i = j" using others[OF i(2)] positive_not_le_zero by blast
  then show ?thesis using i(1) by simp
qed

section \<open>Claims about as many clusters as points\<close>

text \<open>
  Two different points, \<open>(0, 0)\<close> and \<open>(2 ^ -600, 0)\<close>, and two clusters: the square of
  \<open>2 ^ -600\<close> underflows to zero, both points are at distance zero from both seeds, and
  both go to the cluster of the first seed. The second cluster is empty.
\<close>

theorem init_centroids_merge_counterexample:
  "init_centroids_f64 [0, 1] [(Fin 0, Fin 0), (Fin (1 / 2 ^ 600), Fin 0)] 2 =
     Inr [[(Fin 0, Fin 0), (Fin (1 / 2 ^ 600), Fin 0)], []]"
proof -
  define t :: real where "t = 1 / 2 ^ 600"
  have pw: "(2 :: real) powr 600 = 2 ^ 600" by (rule powr_numeral) simp
  have tp: "t = 2 powr (- 600)"
    by (simp only: t_def powr_minus pw inverse_eq_divide)
  have tpos: "0 < t" unfolding t_def by simp
  have r1: "round_f64 t = Fin t"
    by (rule round_f64_exact[of _ 1 "- 600"]) (simp_all add: tp)
  have r2: "round_f64 (- t) = Fin (- t)"
    by (rule round_f64_exact[of _ "- 1" "- 600"]) (simp_all add: tp)
  have "t * t = 2 powr (- 1200)" unfolding tp by (simp flip: powr_add)
  also have "\<dots> < 2 powr (- 1075)" by (rule powr_less_mono) simp_all
  finally have lt: "t * t < 2 powr (- 1075)" .
  have r3: "round_f64 (t * t) = Fin 0"
    by (rule round_f64_underflow[OF _ lt]) (use tpos in simp)
  have "init_centroids_f64 [0, 1] [(Fin 0, Fin 0), (Fin t, Fin 0)] 2 =
          Inr [[(Fin 0, Fin 0), (Fin t, Fin 0)], []]"
    by (simp add: init_centroids_f64_def sample_def closest_centroid_f64_def
        euclidean_distance_f64_def amin_f64_def f64_min_def where_eq_f64_def f64_eq_def
        r1 r2 r3 upt_conv_Cons)
  then show ?thesis unfolding t_def .
qed

text \<open>
  C6, as the code has it. For a dataset of pairwise different points of finite coordinates in
  which the computed distance between any two different points is positive, and \<open>k = n\<close>,
  whatever order the sampling returns the points in, \<open>init_centroids\<close> returns \<open>n\<close>
  clusters of one point each: cluster \<open>i\<close> holds the seed \<open>i\<close> and nothing else.
\<close>

theorem init_centroids_f64_singletons:
  assumes "distinct datapoints"
    and "valid_selection sel (length datapoints) (int (length datapoints))"
    and "list_all finite_point datapoints"
    and "positive_distances datapoints"
  shows "init_centroids_f64 sel datapoints (int (length datapoints)) =
           Inr (map (\<lambda>i. [datapoints ! i]) sel)"
proof -
  let ?S = "map (\<lambda>i. datapoints ! i) sel"
  note sel = selection_all[OF assms(2)]
  have dS: "distinct ?S"
    using sel assms(1) by (auto simp: distinct_map inj_on_def nth_eq_iff_index_eq)
  have "set ?S = set (map (\<lambda>i. datapoints ! i) [0..<length datapoints])"
    using sel(3) by simp
  then have sS: "set ?S = set datapoints" by (simp only: map_nth)
  have seed: "closest_centroid_f64 ?S (?S ! j) = Inr j" if j: "j < length ?S" for j
  proof (rule closest_centroid_f64_of_seed[OF dS j])
    have mem: "?S ! j \<in> set datapoints" using nth_mem[OF j] sS by simp
    then show "finite_point (?S ! j)" using assms(3) by (simp add: list_all_iff)
    show "\<forall>c\<in>set ?S. c \<noteq> ?S ! j \<longrightarrow>
            positive (euclidean_distance_f64 (fst c) (fst (?S ! j)) (snd c) (snd (?S ! j)))"
      using assms(4) mem sS unfolding positive_distances_def by metis
  qed
  have all: "\<forall>p\<in>set datapoints. \<exists>i<length ?S. closest_centroid_f64 ?S p = Inr i"
  proof
    fix p assume "p \<in> set datapoints"
    with sS obtain j where "j < length ?S" "p = ?S ! j" by (metis in_set_conv_nth)
    then show "\<exists>i<length ?S. closest_centroid_f64 ?S p = Inr i" using seed by blast
  qed
  have cl: "filter (\<lambda>p. closest_centroid_f64 ?S p = Inr i) datapoints = [datapoints ! (sel ! i)]"
    if i: "i < length sel" for i
  proof -
    have "closest_centroid_f64 ?S p = Inr i \<longleftrightarrow> p = ?S ! i" if "p \<in> set datapoints" for p
    proof -
      from that sS obtain j where j: "j < length ?S" "p = ?S ! j"
        by (metis in_set_conv_nth)
      have "closest_centroid_f64 ?S p = Inr j" unfolding j(2) by (rule seed[OF j(1)])
      moreover have "?S ! j = ?S ! i \<longleftrightarrow> j = i"
        using nth_eq_iff_index_eq[OF dS, of j i] j(1) i by simp
      ultimately show ?thesis using j(2) by auto
    qed
    then have "filter (\<lambda>p. closest_centroid_f64 ?S p = Inr i) datapoints
             = filter (\<lambda>p. p = ?S ! i) datapoints"
      by (intro filter_cong) auto
    also have "\<dots> = [?S ! i]"
      using sS i by (intro filter_eq_singleton[OF assms(1)]) (metis length_map nth_mem)
    finally show ?thesis using i by simp
  qed
  have "init_centroids_f64 sel datapoints (int (length datapoints)) =
          Inr (map (\<lambda>i. filter (\<lambda>p. closest_centroid_f64 ?S p = Inr i) datapoints) [0..<length sel])"
    using all by (intro init_centroids_f64_filter) simp_all
  also have "map (\<lambda>i. filter (\<lambda>p. closest_centroid_f64 ?S p = Inr i) datapoints) [0..<length sel]
           = map (\<lambda>i. [datapoints ! i]) sel"
    using cl by (intro nth_equalityI) simp_all
  finally show ?thesis .
qed

theorem init_centroids_f64_singletons_witness:
  "distinct [(Fin 0, Fin 0), (Fin 1, Fin 0), (Fin 2, Fin 0)] \<and>
   valid_selection [1, 2, 0] (length [(Fin 0, Fin 0), (Fin 1, Fin 0), (Fin 2, Fin 0)])
     (int (length [(Fin 0, Fin 0), (Fin 1, Fin 0), (Fin 2, Fin 0)])) \<and>
   list_all finite_point [(Fin 0, Fin 0), (Fin 1, Fin 0), (Fin 2, Fin 0)] \<and>
   positive_distances [(Fin 0, Fin 0), (Fin 1, Fin 0), (Fin 2, Fin 0)] \<and>
   init_centroids_f64 [1, 2, 0] [(Fin 0, Fin 0), (Fin 1, Fin 0), (Fin 2, Fin 0)]
     (int (length [(Fin 0, Fin 0), (Fin 1, Fin 0), (Fin 2, Fin 0)])) =
     Inr [[(Fin 1, Fin 0)], [(Fin 2, Fin 0)], [(Fin 0, Fin 0)]]"
  using init_centroids_f64_singletons[of "[(Fin 0, Fin 0), (Fin 1, Fin 0), (Fin 2, Fin 0)]" "[1, 2, 0]"]
  by (simp add: valid_selection_def finite_point_def positive_distances_def
      euclidean_distance_f64_def round_f64_small)

lemma sample_invalid:
  assumes "k < 0 \<or> int (length population) < k"
  shows "sample sel population k = Inl (ValueError ''Sample larger than population or is negative'')"
  using assms by (auto simp: sample_def)

section \<open>Claims about a number of clusters outside the range\<close>

text \<open>
  With no points and \<open>k = 0\<close>, a number of clusters outside \<open>[1, n]\<close>, \<open>init_centroids\<close>
  raises nothing and returns the empty list of clusters.
\<close>

theorem init_centroids_invalid_k_counterexample: "init_centroids [] [] 0 = Inr []"
  by (simp add: init_centroids_def sample_def)

text \<open>
  C3, as the code has it. There is no check of the number of clusters and no error of its
  own: for \<open>k > n\<close> or \<open>k < 0\<close> the \<open>ValueError\<close> of \<open>random.sample\<close> leaves
  \<open>init_centroids\<close>; for \<open>k = 0\<close> and a non-empty dataset the sample is empty and the
  \<open>ValueError\<close> of the minimum over no distances leaves it at the first point; for
  \<open>k = 0\<close> and no points the result is the empty list of clusters. The number is never
  clamped.
\<close>

theorem init_centroids_invalid_k:
  "(k < 0 \<or> int (length datapoints) < k \<longrightarrow>
      init_centroids sel datapoints k =
        Inl (ValueError ''Sample larger than population or is negative'')) \<and>
   (datapoints \<noteq> [] \<longrightarrow>
      init_centroids [] datapoints 0 =
        Inl (ValueError ''zero-size array to reduction operation minimum which has no identity'')) \<and>
   init_centroids [] [] 0 = Inr []"
proof -
  have a: "init_centroids sel datapoints k =
        Inl (ValueError ''Sample larger than population or is negative'')"
    if "k < 0 \<or> int (length datapoints) < k"
    using sample_invalid[OF that, of sel] by (simp add: init_centroids_def)
  have b: "init_centroids [] datapoints 0 =
        Inl (ValueError ''zero-size array to reduction operation minimum which has no identity'')"
    if "datapoints \<noteq> []"
    using that by (simp add: init_centroids_def sample_def assign_points_no_samples)
  have c: "init_centroids [] [] 0 = Inr []"
    by (simp add: init_centroids_def sample_def)
  from a b c show ?thesis by blast
qed

theorem init_centroids_invalid_k_witness:
  "int (length [(1 :: real, 1 :: real)]) < 5 \<and>
   init_centroids [0] [(1, 1)] 5 =
     Inl (ValueError ''Sample larger than population or is negative'') \<and>
   init_centroids [] [(1, 1)] 0 =
     Inl (ValueError ''zero-size array to reduction operation minimum which has no identity'')"
  using init_centroids_invalid_k[of 5 "[(1, 1)]" "[0]"]
  by simp



section \<open>Claims about the means of a cluster\<close>














lemma collect_countries:
  "fold (\<lambda>(country, point) acc. if point \<in> set cluster then acc @ [country] else acc) data acc =
     acc @ map fst (filter (\<lambda>(country, point). point \<in> set cluster) data)"
  by (induction data arbitrary: acc) (auto split: prod.splits)

lemma get_country_eq:
  "get_country cluster data =
     (map fst (filter (\<lambda>(country, point). point \<in> set cluster) data),
      length (filter (\<lambda>(country, point). point \<in> set cluster) data))"
  by (simp add: get_country_def collect_countries)

section \<open>Claims about the countries of a cluster\<close>

text \<open>
  C10. For every cluster and every dictionary, \<open>get_country\<close> lists, in the order of the
  dictionary, exactly the countries whose point equals some point of the cluster, and reports
  how many they are. Two countries with the same point are both listed for every cluster
  that holds the point, and the reported number can differ from the length of the cluster:
  for the cluster \<open>[(1, 1)]\<close> and two countries at \<open>(1, 1)\<close> it is 2.
\<close>

theorem get_country_matches:
  "fst (get_country cluster data) =
     map fst (filter (\<lambda>(country, point). point \<in> set cluster) data) \<and>
   snd (get_country cluster data) =
     length (filter (\<lambda>(country, point). point \<in> set cluster) data) \<and>
   ((c1, p) \<in> set data \<and> (c2, p) \<in> set data \<and> p \<in> set cluster \<longrightarrow>
      c1 \<in> set (fst (get_country cluster data)) \<and> c2 \<in> set (fst (get_country cluster data))) \<and>
   get_country [(1, 1)] [(''A'', (1, 1)), (''B'', (1, 1))] = ([''A'', ''B''], 2) \<and>
   snd (get_country [(1, 1)] [(''A'', (1, 1)), (''B'', (1, 1))]) \<noteq> length [(1 :: real, 1 :: real)]"
proof -
  have a: "c \<in> set (fst (get_country cluster data))" if "(c, p) \<in> set data" "p \<in> set cluster" for c
    using that by (force simp: get_country_eq)
  have b: "get_country [(1, 1)] [(''A'', (1, 1)), (''B'', (1, 1))] = ([''A'', ''B''], 2)"
    by (simp add: get_country_eq)
  from a b show ?thesis by (simp add: get_country_eq)
qed

theorem get_country_matches_witness:
  "(''A'', (1 :: real, 1 :: real)) \<in> set [(''A'', (1, 1)), (''B'', (1, 1))] \<and>
   (''B'', (1 :: real, 1 :: real)) \<in> set [(''A'', (1, 1)), (''B'', (1, 1))] \<and>
   (1 :: real, 1 :: real) \<in> set [(1, 1), (4, 2)] \<and>
   ''A'' \<in> set (fst (get_country [(1, 1), (4, 2)] [(''A'', (1, 1)), (''B'', (1, 1))])) \<and>
   ''B'' \<in> set (fst (get_country [(1, 1), (4, 2)] [(''A'', (1, 1)), (''B'', (1, 1))]))"
  using get_country_matches[of "[(1, 1), (4, 2)]" "[(''A'', (1, 1)), (''B'', (1, 1))]" "''A''" "(1, 1)" "''B''"]
  by simp

lemma read_rows_append:
  assumes "list_all row_ok good"
  shows "read_rows (good @ rest) d =
           read_rows rest (fold (\<lambda>row. AList.update (fst (row_entry row)) (snd (row_entry row))) good d)"
  using assms
proof (induction good arbitrary: d)
  case Nil
  then show ?case by simp
next
  case (Cons row good)
  then have ok: "row_ok row" and rest: "list_all row_ok good" by simp_all
  from ok obtain b l where
    "py_float (row ! 1) = Inr b" "py_float (row ! 2) = Inr l" "3 \<le> length row"
    unfolding row_ok_def by (metis sum.collapse(2))
  then have "read_rows ((row # good) @ rest) d =
               read_rows (good @ rest) (AList.update (fst (row_entry row)) (snd (row_entry row)) d)"
    by (auto simp: get_field_def row_entry_def)
  then show ?case using Cons.IH[OF rest] by simp
qed

lemma read_rows_bad:
  assumes "\<not> row_ok bad"
  shows "read_rows (bad # rest) d =
           Inl (if length bad < 2 then IndexError ''list index out of range''
                else if isl (py_float (bad ! 1)) then ValueError ''could not convert string to float''
                else if length bad < 3 then IndexError ''list index out of range''
                else ValueError ''could not convert string to float'')"
proof -
  have err: "e = ValueError ''could not convert string to float''" if "py_float s = Inl e" for s e
    using that
    by (auto simp: py_float_def float_error_def Let_def split: if_splits prod.splits option.splits)
  show ?thesis
  proof (cases "py_float (bad ! 1)")
    case (Inl e)
    then show ?thesis using err[OF Inl] by (simp add: get_field_def)
  next
    case (Inr b)
    show ?thesis
    proof (cases "py_float (bad ! 2)")
      case (Inl e)
      then show ?thesis using err[OF Inl] Inr by (simp add: get_field_def)
    next
      case r2: (Inr l)
      then have "length bad < 3" using assms Inr by (simp add: row_ok_def)
      then show ?thesis using Inr by (simp add: get_field_def)
    qed
  qed
qed

lemma fold_update_keys:
  "map fst (fold (\<lambda>row. AList.update (fst (row_entry row)) (snd (row_entry row))) body []) =
     rev (remdups (rev (map (\<lambda>row. row ! 0) body)))"
proof (induction body rule: rev_induct)
  case Nil
  then show ?case by simp
next
  case (snoc row body)
  then show ?case by (simp add: update_keys row_entry_def)
qed

lemma fold_update_map_of:
  "map_of (fold (\<lambda>row. AList.update (fst (row_entry row)) (snd (row_entry row))) body []) =
     map_of (rev (map row_entry body))"
proof (induction body rule: rev_induct)
  case Nil
  then show ?case by simp
next
  case (snoc row body)
  then show ?case by (cases "row_entry row") (simp add: update_conv')
qed

lemma round_f64_21_2: "round_f64 (21 / 2) = Fin (21 / 2)"
  by (rule round_f64_exact[of _ 21 "- 1"]) (simp_all add: powr_minus)

lemma round_f64_table: "round_f64 3 = Fin 3" "round_f64 10 = Fin 10" "round_f64 60 = Fin 60"
  "round_f64 70 = Fin 70"
  using round_f64_of_int[of 3] round_f64_of_int[of 10] round_f64_of_int[of 60]
    round_f64_of_int[of 70]
  by simp_all

lemmas py_float_eval = py_float_def strip_def float_error_def is_digit_def is_space_def
  digits_val_def split_sign_def parse_number_def parse_exponent_def pow10_def to_lower_def
  round_f64_21_2 round_f64_table round_f64_small

text \<open>Some fields that \<open>float\<close> accepts and some that it rejects.\<close>

lemma py_float_examples:
  "py_float ''10.5'' = Inr (Fin (21 / 2))" "py_float '' 7_0 '' = Inr (Fin 70)"
  "py_float ''1e1'' = Inr (Fin 10)" "py_float ''-InF'' = Inr NInf" "py_float ''nan'' = Inr QNaN"
  "py_float [] = float_error" "py_float ''1_e1'' = float_error" "py_float ''1e'' = float_error"
  "py_float ''.'' = float_error" "py_float ''x'' = float_error"
  "py_float [CHR 0x1C, CHR ''1''] = float_error"
  by (simp_all add: py_float_eval)

section \<open>Claims about malformed rows\<close>

text \<open>
  A table whose only row has an empty birthrate field: the \<open>ValueError\<close> of \<open>float\<close>
  leaves \<open>read_csv\<close>, which reports nothing and returns no dictionary at all.
\<close>

theorem read_csv_malformed_counterexample:
  "read_csv [''data.csv'' \<mapsto> [[''Country'', ''Birth'', ''Life''], [''Atlantis'', [], ''70.0'']]]
     ''data.csv'' = Inl (ValueError ''could not convert string to float'')"
  by (simp add: read_csv_def get_field_def py_float_def strip_def float_error_def)

text \<open>
  C8, as the code has it. \<open>read_csv\<close> reports without failing, and returns the empty
  dictionary, only when the file does not exist. For a file without any line the
  \<open>StopIteration\<close> of skipping the header leaves it. For a file whose rows after the
  header all have three fields with numeric second and third fields, nothing is reported and
  the dictionary of all rows is returned: its keys are the countries in the order of their
  first rows, and each country has the numbers of its last row. Otherwise the exception of
  the first row that is not so leaves \<open>read_csv\<close> and no dictionary is returned, neither
  empty nor partial: an \<open>IndexError\<close> when that row has fewer than two fields, else the
  \<open>ValueError\<close> of \<open>float\<close> when the second field is not numeric, else an
  \<open>IndexError\<close> when the row has two fields only, else the \<open>ValueError\<close> of
  \<open>float\<close> on the third field.
\<close>

theorem read_csv_malformed:
  "(fs file = None \<longrightarrow> read_csv fs file = Inr ([''Please enter the correct file name!''], [])) \<and>
   (fs file = Some [] \<longrightarrow> read_csv fs file = Inl StopIteration) \<and>
   (fs file = Some (header # body) \<and> list_all row_ok body \<longrightarrow>
      (\<exists>d. read_csv fs file = Inr ([], d) \<and>
           map fst d = rev (remdups (rev (map (\<lambda>row. row ! 0) body))) \<and>
           map_of d = map_of (rev (map row_entry body)))) \<and>
   (fs file = Some (header # good @ bad # rest) \<and> list_all row_ok good \<and> \<not> row_ok bad \<longrightarrow>
      read_csv fs file =
        Inl (if length bad < 2 then IndexError ''list index out of range''
             else if isl (py_float (bad ! 1)) then ValueError ''could not convert string to float''
             else if length bad < 3 then IndexError ''list index out of range''
             else ValueError ''could not convert string to float''))"
proof -
  let ?upd = "\<lambda>row. AList.update (fst (row_entry row)) (snd (row_entry row))"
  have a: "\<exists>d. read_csv fs file = Inr ([], d) \<and>
           map fst d = rev (remdups (rev (map (\<lambda>row. row ! 0) body))) \<and>
           map_of d = map_of (rev (map row_entry body))"
    if f: "fs file = Some (header # body)" and ok: "list_all row_ok body"
  proof -
    have "read_rows body [] = Inr (fold ?upd body [])"
      using read_rows_append[OF ok, of "[]" "[]"] by simp
    then have "read_csv fs file = Inr ([], fold ?upd body [])" using f by (simp add: read_csv_def)
    then show ?thesis using fold_update_keys[of body] fold_update_map_of[of body] by blast
  qed
  have b: "read_csv fs file =
        Inl (if length bad < 2 then IndexError ''list index out of range''
             else if isl (py_float (bad ! 1)) then ValueError ''could not convert string to float''
             else if length bad < 3 then IndexError ''list index out of range''
             else ValueError ''could not convert string to float'')"
    if f: "fs file = Some (header # good @ bad # rest)" and ok: "list_all row_ok good"
      and bad: "\<not> row_ok bad"
  proof -
    have "read_rows (good @ bad # rest) [] = read_rows (bad # rest) (fold ?upd good [])"
      by (rule read_rows_append[OF ok])
    also note read_rows_bad[OF bad]
    finally show ?thesis using f by (simp add: read_csv_def)
  qed
  have c: "fs file = None \<longrightarrow> read_csv fs file = Inr ([''Please enter the correct file name!''], [])"
    by (simp add: read_csv_def)
  have d: "fs file = Some [] \<longrightarrow> read_csv fs file = Inl StopIteration"
    by (simp add: read_csv_def)
  from a b c d show ?thesis by blast
qed

theorem read_csv_malformed_witness:
  "[''data.csv'' \<mapsto> [[''Country'', ''Birth'', ''Life''], [''A'', ''10.5'', ''70''],
       [''B'', ''1e1'', '' 60''], [''A'', ''2'', ''3'']]] ''data.csv'' =
     Some ([''Country'', ''Birth'', ''Life''] #
       [[''A'', ''10.5'', ''70''], [''B'', ''1e1'', '' 60''], [''A'', ''2'', ''3'']]) \<and>
   list_all row_ok [[''A'', ''10.5'', ''70''], [''B'', ''1e1'', '' 60''], [''A'', ''2'', ''3'']] \<and>
   read_csv [''data.csv'' \<mapsto> [[''Country'', ''Birth'', ''Life''], [''A'', ''10.5'', ''70''],
       [''B'', ''1e1'', '' 60''], [''A'', ''2'', ''3'']]] ''data.csv'' =
     Inr ([], [(''A'', (Fin 2, Fin 3)), (''B'', (Fin 10, Fin 60))]) \<and>
   [''data.csv'' \<mapsto> [[''Country'', ''Birth'', ''Life''], [''A'', ''10.5'', ''70''],
       [''B'', ''x'', ''60''], [''C'']]] ''data.csv'' =
     Some ([''Country'', ''Birth'', ''Life''] # [[''A'', ''10.5'', ''70'']] @ [''B'', ''x'', ''60''] # [[''C'']]) \<and>
   list_all row_ok [[''A'', ''10.5'', ''70'']] \<and> \<not> row_ok [''B'', ''x'', ''60''] \<and>
   read_csv [''data.csv'' \<mapsto> [[''Country'', ''Birth'', ''Life''], [''A'', ''10.5'', ''70''],
       [''B'', ''x'', ''60''], [''C'']]] ''data.csv'' =
     Inl (ValueError ''could not convert string to float'') \<and>
   read_csv Map.empty ''data.csv'' = Inr ([''Please enter the correct file name!''], []) \<and>
   read_csv [''data.csv'' \<mapsto> []] ''data.csv'' = Inl StopIteration"
  using read_csv_malformed[of
      "[''data.csv'' \<mapsto> [[''Country'', ''Birth'', ''Life''], [''A'', ''10.5'', ''70''],
         [''B'', ''1e1'', '' 60''], [''A'', ''2'', ''3'']]]" "''data.csv''"
      "[''Country'', ''Birth'', ''Life'']"
      "[[''A'', ''10.5'', ''70''], [''B'', ''1e1'', '' 60''], [''A'', ''2'', ''3'']]" "[]" "[]" "[]"]
    read_csv_malformed[of
      "[''data.csv'' \<mapsto> [[''Country'', ''Birth'', ''Life''], [''A'', ''10.5'', ''70''],
         [''B'', ''x'', ''60''], [''C'']]]" "''data.csv''"
      "[''Country'', ''Birth'', ''Life'']" "[]" "[[''A'', ''10.5'', ''70'']]" "[''B'', ''x'', ''60'']"
      "[[''C'']]"]
    read_csv_malformed[of Map.empty "''data.csv''" "[]" "[]" "[]" "[]" "[]"]
    read_csv_malformed[of "[''data.csv'' \<mapsto> []]" "''data.csv''" "[]" "[]" "[]" "[]" "[]"]
  by (simp add: read_csv_def get_field_def row_ok_def py_float_eval)

end
